theory Spec2Isabelle
  imports Main "HOL-Library.List_Lexorder"
begin

section \<open>Data model of restaurant.py\<close>

text \<open>
  Python integers are unbounded and are modelled by \<open>int\<close>. An order's \<open>order_time\<close> is the
  difference of two timestamps parsed with whole seconds, a float that holds an integer
  exactly, so it is an \<open>int\<close> here too. Inventory counts live in a numpy integer array
  between \<open>check_inventory\<close> and \<open>commit_inventory\<close>; the model covers counts for which
  that array arithmetic is exact (no overflow of the array's element type).
\<close>

datatype error =
    LengthMismatch    \<comment> \<open>the \<open>Exception\<close> raised by \<open>Inventory.create_from_array\<close>\<close>
  | CoercionError     \<comment> \<open>\<open>int(x)\<close> raised\<close>
  | EmptySequence     \<comment> \<open>\<open>min\<close> of an empty list\<close>
  | NoneTypeError     \<comment> \<open>\<open>len(None)\<close>\<close>

record Inventory =
  patties :: int
  lettuce :: int
  tomato :: int
  veggie :: int
  bacon :: int

datatype status = ACCEPTED | REJECTED

record Order =
  restaurant_id :: string
  order_time :: int
  order_id :: string
  items :: "string list"
  inventory_req :: Inventory
  required_time :: int
  status :: "status option"

text \<open>
  A \<open>collections.deque\<close> is a mutable object: its bound \<open>maxlen\<close> and its elements,
  leftmost first. A department's \<open>queue\<close> and \<open>cache\<close> are lists of references to deques,
  so the model keeps the deques in a store (\<open>heap\<close>, addressed by index) and the two lists
  hold addresses. Two entries with the same address are the same Python object.
\<close>

record Deque =
  maxlen :: nat
  elems :: "int list"

record Department =
  name :: string
  capacity :: int
  task_time :: int
  queue :: "nat list"
  cache :: "nat list"
  heap :: "Deque list"

record Restaurant =
  ident :: string
  departments :: "Department list"
  inventory :: Inventory
  total_time :: int
  cache_inventory :: "int list option"

section \<open>Inventory\<close>

text \<open>
  \<open>create_from_array\<close>: the length test comes first, then \<open>int(x)\<close> on every element.
  The coercion \<open>int\<close> is a parameter: \<open>coerce x = None\<close> where \<open>int(x)\<close> raises.
\<close>

definition Inventory_create_from_array :: "('a \<Rightarrow> int option) \<Rightarrow> 'a list \<Rightarrow> error + Inventory" where
  "Inventory_create_from_array coerce xs =
     (if length xs = 5 then
        (case those (map coerce xs) of
           None \<Rightarrow> Inl CoercionError
         | Some ys \<Rightarrow>
             Inr \<lparr>patties = ys ! 0, lettuce = ys ! 1, tomato = ys ! 2,
                  veggie = ys ! 3, bacon = ys ! 4\<rparr>)
      else Inl LengthMismatch)"

text \<open>\<open>str.count\<close> with a one-letter needle.\<close>

primrec str_count :: "string \<Rightarrow> char \<Rightarrow> nat" where
  "str_count [] c = 0"
| "str_count (x # xs) c = (if x = c then 1 + str_count xs c else str_count xs c)"

definition Inventory_create_from_order_items :: "string list \<Rightarrow> Inventory" where
  "Inventory_create_from_order_items its =
     (let p = int (length its);
          item_str = concat its;
          b = int (str_count item_str CHR ''B'');
          l = int (str_count item_str CHR ''L'');
          t = int (str_count item_str CHR ''T'');
          v = int (str_count item_str CHR ''V'')
      in \<lparr>patties = p, lettuce = l, tomato = t, veggie = v, bacon = b\<rparr>)"

definition Inventory_as_array :: "Inventory \<Rightarrow> int list" where
  "Inventory_as_array iv = [patties iv, lettuce iv, tomato iv, veggie iv, bacon iv]"

definition Inventory_sub :: "Inventory \<Rightarrow> Inventory \<Rightarrow> int list" where
  "Inventory_sub a b = map2 (-) (Inventory_as_array a) (Inventory_as_array b)"

section \<open>Order\<close>

text \<open>The constructor, given the arrival time already parsed to relative seconds.\<close>

definition Order_init :: "string \<Rightarrow> int \<Rightarrow> string \<Rightarrow> string list \<Rightarrow> Order" where
  "Order_init rid t oid its =
     \<lparr>restaurant_id = rid, order_time = t, order_id = oid, items = its,
      inventory_req = Inventory_create_from_order_items its,
      required_time = 0, status = None\<rparr>"

section \<open>Department\<close>

definition new_deque :: "nat \<Rightarrow> Deque" where
  "new_deque n = \<lparr>maxlen = n, elems = []\<rparr>"

text \<open>A full bounded deque drops from the right end when an element is pushed on the left.\<close>

definition appendleft :: "int \<Rightarrow> Deque \<Rightarrow> Deque" where
  "appendleft x dq = dq\<lparr>elems := take (maxlen dq) (x # elems dq)\<rparr>"

text \<open>
  Deques compare like sequences: the first differing pair decides, and a proper prefix
  is smaller.
\<close>

fun deque_less :: "int list \<Rightarrow> int list \<Rightarrow> bool" where
  "deque_less [] [] = False"
| "deque_less [] (y # ys) = True"
| "deque_less (x # xs) [] = False"
| "deque_less (x # xs) (y # ys) = (if x = y then deque_less xs ys else x < y)"

text \<open>
  \<open>min\<close> over a list of deques keeps the first candidate and replaces it only by a
  strictly smaller later one; on an empty list it raises.
\<close>

fun min_from :: "Deque list \<Rightarrow> nat \<Rightarrow> nat list \<Rightarrow> nat" where
  "min_from h a [] = a"
| "min_from h a (b # bs) =
     (if deque_less (elems (h ! b)) (elems (h ! a)) then min_from h b bs
      else min_from h a bs)"

fun py_min :: "Deque list \<Rightarrow> nat list \<Rightarrow> nat option" where
  "py_min h [] = None"
| "py_min h (a # as) = Some (min_from h a as)"

text \<open>
  \<open>__init__\<close>: \<open>capacity\<close> fresh deques bounded by 1 for the queue and as many bounded by 6
  for the cache (\<open>range\<close> of a non-positive number is empty). Nothing is validated.
\<close>

definition Department_init :: "string \<Rightarrow> int \<Rightarrow> int \<Rightarrow> Department" where
  "Department_init nm cap tt =
     (let n = nat cap in
      \<lparr>name = nm, capacity = cap, task_time = tt,
       queue = [0..<n], cache = [n..<n + n],
       heap = replicate n (new_deque 1) @ replicate n (new_deque 6)\<rparr>)"

definition wait_time :: "int list \<Rightarrow> int \<Rightarrow> int" where
  "wait_time es t = (case es of [] \<Rightarrow> 0 | f # _ \<Rightarrow> max (f - t) 0)"

definition Department_append_time :: "Department \<Rightarrow> int \<Rightarrow> error + (Department \<times> int)" where
  "Department_append_time d t =
     (case py_min (heap d) (cache d) of
        None \<Rightarrow> Inl EmptySequence
      | Some a \<Rightarrow>
          (let c = heap d ! a;
               w = wait_time (elems c) t
           in Inr (d\<lparr>heap := (heap d)[a := appendleft (t + task_time d + w) c]\<rparr>,
                   task_time d + w)))"

fun dept_loop :: "Department \<Rightarrow> int \<Rightarrow> string list \<Rightarrow> int \<Rightarrow> error + (Department \<times> int)" where
  "dept_loop d t [] req = Inr (d, req)"
| "dept_loop d t (i # is) req =
     (case Department_append_time d t of
        Inl e \<Rightarrow> Inl e
      | Inr (d', r) \<Rightarrow> dept_loop d' t is (max req r))"

definition Department_required_time :: "Department \<Rightarrow> Order \<Rightarrow> error + (Department \<times> int)" where
  "Department_required_time d ord = dept_loop d (order_time ord) (items ord) 0"


text \<open>
  \<open>commit_required_time\<close> builds a new queue: a \<open>copy\<close> of each non-empty cache deque (a
  fresh deque with the same bound and elements), a fresh \<open>deque(maxlen=1)\<close> for an empty
  one. A fresh object gets the next free address.
\<close>

fun commit_loop :: "Deque list \<Rightarrow> nat list \<Rightarrow> nat list \<Rightarrow> Deque list \<times> nat list" where
  "commit_loop h [] q = (h, q)"
| "commit_loop h (a # as) q =
     (let c = h ! a;
          fresh = (if elems c \<noteq> [] then c else new_deque 1)
      in commit_loop (h @ [fresh]) as (q @ [length h]))"

definition Department_commit_required_time :: "Department \<Rightarrow> Department" where
  "Department_commit_required_time d =
     (case commit_loop (heap d) (cache d) [] of (h, q) \<Rightarrow> d\<lparr>queue := q, heap := h\<rparr>)"

text \<open>
  \<open>reverse_required_time\<close> is \<open>self.cache = copy(self.queue)\<close>: a new list holding the same
  deque objects.
\<close>

definition Department_reverse_required_time :: "Department \<Rightarrow> Department" where
  "Department_reverse_required_time d = d\<lparr>cache := queue d\<rparr>"

text \<open>What a reader of the two schedules sees: the contents of each slot, in order.\<close>

definition queue_view :: "Department \<Rightarrow> int list list" where
  "queue_view d = map (\<lambda>a. elems (heap d ! a)) (queue d)"

definition cache_view :: "Department \<Rightarrow> int list list" where
  "cache_view d = map (\<lambda>a. elems (heap d ! a)) (cache d)"

text \<open>
  A department's life is a sequence of calls: \<open>required_time\<close> for an order, a commit, an
  abort. \<open>dept_run\<close> performs such a sequence and stops at the first exception.
\<close>

datatype dept_op = Evaluate Order | Commit | Abort

fun dept_step :: "Department \<Rightarrow> dept_op \<Rightarrow> error + Department" where
  "dept_step d (Evaluate ord) =
     (case Department_required_time d ord of Inl e \<Rightarrow> Inl e | Inr (d', v) \<Rightarrow> Inr d')"
| "dept_step d Commit = Inr (Department_commit_required_time d)"
| "dept_step d Abort = Inr (Department_reverse_required_time d)"

fun dept_run :: "Department \<Rightarrow> dept_op list \<Rightarrow> error + Department" where
  "dept_run d [] = Inr d"
| "dept_run d (x # xs) = (case dept_step d x of Inl e \<Rightarrow> Inl e | Inr d' \<Rightarrow> dept_run d' xs)"

text \<open>
  Well-formedness of a department's store: both lists have \<open>capacity\<close> entries (none for a
  non-positive capacity), every entry refers to an allocated deque, and every deque
  respects its bound, which is 1 or more and at most 6.
\<close>

definition dept_inv :: "Department \<Rightarrow> bool" where
  "dept_inv d \<longleftrightarrow>
     length (queue d) = nat (capacity d) \<and> length (cache d) = nat (capacity d) \<and>
     list_all (\<lambda>a. a < length (heap d)) (queue d) \<and>
     list_all (\<lambda>a. a < length (heap d)) (cache d) \<and>
     list_all (\<lambda>q. 0 < maxlen q \<and> maxlen q \<le> 6 \<and> length (elems q) \<le> maxlen q) (heap d)"

section \<open>Restaurant\<close>

definition Restaurant_init :: "string \<Rightarrow> Department list \<Rightarrow> Inventory \<Rightarrow> Restaurant" where
  "Restaurant_init i depts iv =
     \<lparr>ident = i, departments = depts, inventory = iv, total_time = 0,
      cache_inventory = None\<rparr>"

definition Restaurant_check_inventory :: "Restaurant \<Rightarrow> Order \<Rightarrow> Restaurant \<times> bool" where
  "Restaurant_check_inventory r ord =
     (let diff = Inventory_sub (inventory r) (inventory_req ord);
          r' = r\<lparr>cache_inventory := Some diff\<rparr>
      in if min_list diff < 0 then (r', False) else (r', True))"

fun rest_loop :: "Department list \<Rightarrow> Order \<Rightarrow> int \<Rightarrow> error + (Department list \<times> int)" where
  "rest_loop [] ord req = Inr ([], req)"
| "rest_loop (d # ds) ord req =
     (case Department_required_time d ord of
        Inl e \<Rightarrow> Inl e
      | Inr (d', t) \<Rightarrow>
          (case rest_loop ds ord (req + t) of
             Inl e \<Rightarrow> Inl e
           | Inr (ds', tot) \<Rightarrow> Inr (d' # ds', tot)))"

definition Restaurant_required_time :: "Restaurant \<Rightarrow> Order \<Rightarrow> error + (Restaurant \<times> int)" where
  "Restaurant_required_time r ord =
     (case rest_loop (departments r) ord 0 of
        Inl e \<Rightarrow> Inl e
      | Inr (ds, tot) \<Rightarrow> Inr (r\<lparr>departments := ds\<rparr>, tot))"

definition Restaurant_commit_required_time :: "Restaurant \<Rightarrow> Restaurant" where
  "Restaurant_commit_required_time r =
     r\<lparr>departments := map Department_commit_required_time (departments r)\<rparr>"

definition Restaurant_reverse_required_time :: "Restaurant \<Rightarrow> Restaurant" where
  "Restaurant_reverse_required_time r =
     r\<lparr>departments := map Department_reverse_required_time (departments r)\<rparr>"

definition Restaurant_commit_inventory :: "Restaurant \<Rightarrow> error + Restaurant" where
  "Restaurant_commit_inventory r =
     (case cache_inventory r of
        None \<Rightarrow> Inl NoneTypeError
      | Some xs \<Rightarrow>
          (case Inventory_create_from_array Some xs of
             Inl e \<Rightarrow> Inl e
           | Inr iv \<Rightarrow> Inr (r\<lparr>inventory := iv\<rparr>)))"

text \<open>
  \<open>check_order\<close> returns the restaurant after the call, the order with its outcome, and the
  warning it logged (none on acceptance).
\<close>

definition time_warning :: string where
  "time_warning = ''Order Canceled due to insufficient time''"

definition inventory_warning :: string where
  "inventory_warning = ''Order Canceled due to insufficient inventory''"

definition Restaurant_check_order ::
    "Restaurant \<Rightarrow> Order \<Rightarrow> int \<Rightarrow> error + (Restaurant \<times> Order \<times> string option)" where
  "Restaurant_check_order r ord time_threshold =
     (case Restaurant_check_inventory r ord of
        (r1, True) \<Rightarrow>
          (case Restaurant_required_time r1 ord of
             Inl e \<Rightarrow> Inl e
           | Inr (r2, req_time) \<Rightarrow>
               if req_time < time_threshold then
                 (case Restaurant_commit_inventory r2 of
                    Inl e \<Rightarrow> Inl e
                  | Inr r3 \<Rightarrow>
                      (let r4 = Restaurant_commit_required_time r3;
                           r5 = r4\<lparr>total_time := total_time r4 + req_time\<rparr>
                       in Inr (r5, ord\<lparr>status := Some ACCEPTED, required_time := req_time\<rparr>,
                               None)))
               else
                 Inr (Restaurant_reverse_required_time r2, ord\<lparr>status := Some REJECTED\<rparr>,
                      Some time_warning))
      | (r1, False) \<Rightarrow> Inr (r1, ord\<lparr>status := Some REJECTED\<rparr>, Some inventory_warning))"

text \<open>The loop of the main program: the orders are checked one after the other.\<close>

fun process_orders :: "Restaurant \<Rightarrow> int \<Rightarrow> Order list \<Rightarrow> error + (Restaurant \<times> Order list)" where
  "process_orders r thr [] = Inr (r, [])"
| "process_orders r thr (ord # ords) =
     (case Restaurant_check_order r ord thr of
        Inl e \<Rightarrow> Inl e
      | Inr (r', ord', w) \<Rightarrow>
          (case process_orders r' thr ords of
             Inl e \<Rightarrow> Inl e
           | Inr (r'', outs) \<Rightarrow> Inr (r'', ord' # outs)))"

section \<open>Example inputs\<close>



definition test_order :: Order where
  "test_order = Order_init ''R1'' 0 ''O1'' [''BLT'', ''LT'', ''VLT'']"

text \<open>
  A two-item order, and a slow kitchen with one slot per department and five minutes per
  task (the line \<open>R1,1C,5,1A,5,1P,5,100,200,200,100,100\<close>) with three orders arriving one
  second apart: two items, two items, one item. The threshold of the main program is
  \<open>21 * 60\<close> seconds.
\<close>

definition two_item_order :: Order where
  "two_item_order = Order_init ''R1'' 0 ''O1'' [''BLT'', ''LT'']"

definition slow_restaurant :: Restaurant where
  "slow_restaurant = Restaurant_init ''R1''
     [Department_init ''cooking'' 1 300, Department_init ''asembling'' 1 300,
      Department_init ''packaging'' 1 300]
     \<lparr>patties = 100, lettuce = 200, tomato = 200, veggie = 100, bacon = 100\<rparr>"

definition slow_orders :: "Order list" where
  "slow_orders = [Order_init ''R1'' 0 ''O1'' [''BLT'', ''LT''],
                  Order_init ''R1'' 1 ''O2'' [''BLT'', ''LT''],
                  Order_init ''R1'' 2 ''O3'' [''BLT'']]"


text \<open>What is visible after a run: each department's committed schedule, the inventory, and
  the status of every order.\<close>

definition outcome ::
    "error + (Restaurant \<times> Order list) \<Rightarrow> error + (int list list list \<times> Inventory \<times> status option list)" where
  "outcome res =
     map_sum id (\<lambda>(r, outs). (map queue_view (departments r), inventory r, map status outs)) res"


section \<open>Requirements derived from item codes\<close>

lemma str_count_filter: "str_count s c = length (filter (\<lambda>x. x = c) s)"
  by (induction s) auto

text \<open>
  C9. For every list of item codes, \<open>create_from_order_items\<close> yields a requirement whose
  patty count is the number of items and whose lettuce, tomato, veggie and bacon counts are
  the numbers of occurrences of the letters L, T, V and B in the concatenation of all item
  codes.
\<close>

theorem create_from_order_items_counts:
  "patties (Inventory_create_from_order_items its) = int (length its) \<and>
   lettuce (Inventory_create_from_order_items its) =
     int (length (filter (\<lambda>x. x = CHR ''L'') (concat its))) \<and>
   tomato (Inventory_create_from_order_items its) =
     int (length (filter (\<lambda>x. x = CHR ''T'') (concat its))) \<and>
   veggie (Inventory_create_from_order_items its) =
     int (length (filter (\<lambda>x. x = CHR ''V'') (concat its))) \<and>
   bacon (Inventory_create_from_order_items its) =
     int (length (filter (\<lambda>x. x = CHR ''B'') (concat its)))"
  by (simp add: Inventory_create_from_order_items_def str_count_filter Let_def)

section \<open>The inventory phase\<close>







section \<open>Allocation of one item\<close>

lemma deque_less_iff: "deque_less xs ys \<longleftrightarrow> xs < ys"
  by (induction xs ys rule: deque_less.induct) auto

lemma min_from_mem: "min_from h a bs \<in> set (a # bs)"
  by (induction bs arbitrary: a) (auto simp: deque_less_iff)





section \<open>Required time of a stage and of the pipeline\<close>













section \<open>The decision\<close>









section \<open>The stage invariant\<close>

lemma dept_inv_init: "dept_inv (Department_init nm cap tt)"
  by (auto simp: dept_inv_def Department_init_def Let_def list_all_iff new_deque_def)

lemma appendleft_bound:
  "length (elems q) \<le> maxlen q \<Longrightarrow>
     maxlen (appendleft x q) = maxlen q \<and> length (elems (appendleft x q)) \<le> maxlen q"
  by (simp add: appendleft_def)

lemma list_all_update:
  "list_all P xs \<Longrightarrow> a < length xs \<Longrightarrow> P v \<Longrightarrow> list_all P (xs[a := v])"
  using set_update_subset_insert [of xs a v] by (auto simp: list_all_iff)

lemma py_min_valid:
  "py_min h cs = Some a \<Longrightarrow> a \<in> set cs"
  using min_from_mem [of h] by (cases cs) auto

lemma append_time_inv:
  assumes "dept_inv d" and "Department_append_time d t = Inr (d', r)"
  shows "dept_inv d'"
proof -
  from assms(2) obtain a where a: "py_min (heap d) (cache d) = Some a"
    and d': "d' = d\<lparr>heap := (heap d)[a := appendleft (t + task_time d + wait_time (elems (heap d ! a)) t) (heap d ! a)]\<rparr>"
    by (auto simp: Department_append_time_def Let_def split: option.splits)
  from py_min_valid [OF a] assms(1) have va: "a < length (heap d)"
    by (auto simp: dept_inv_def list_all_iff)
  with assms(1) have q: "0 < maxlen (heap d ! a) \<and> maxlen (heap d ! a) \<le> 6 \<and>
      length (elems (heap d ! a)) \<le> maxlen (heap d ! a)"
    by (auto simp: dept_inv_def list_all_iff)
  let ?v = "appendleft (t + task_time d + wait_time (elems (heap d ! a)) t) (heap d ! a)"
  have "0 < maxlen ?v \<and> maxlen ?v \<le> 6 \<and> length (elems ?v) \<le> maxlen ?v"
    using q appendleft_bound [of "heap d ! a"] by simp
  with assms(1) va have "list_all (\<lambda>q. 0 < maxlen q \<and> maxlen q \<le> 6 \<and> length (elems q) \<le> maxlen q)
      ((heap d)[a := ?v])"
    by (intro list_all_update) (auto simp: dept_inv_def)
  with assms(1) show ?thesis
    by (simp add: dept_inv_def d')
qed

lemma dept_loop_inv:
  "dept_inv d \<Longrightarrow> dept_loop d t its req = Inr (d', v) \<Longrightarrow> dept_inv d'"
proof (induction its arbitrary: d req)
  case Nil
  then show ?case by simp
next
  case (Cons i its)
  then show ?case
    by (auto split: sum.splits dest: append_time_inv)
qed

lemma commit_loop_eq:
  "\<forall>a\<in>set as. a < length h \<Longrightarrow>
     commit_loop h as q =
       (h @ map (\<lambda>a. if elems (h ! a) \<noteq> [] then h ! a else new_deque 1) as,
        q @ [length h..<length h + length as])"
proof (induction as arbitrary: h q)
  case Nil
  then show ?case by simp
next
  case (Cons a as)
  let ?f = "\<lambda>h a. if elems (h ! a) \<noteq> [] then h ! a else new_deque 1"
  let ?h = "h @ [?f h a]"
  from Cons.prems have v: "\<forall>b\<in>set as. b < length ?h" by auto
  have same: "map (?f ?h) as = map (?f h) as"
    using Cons.prems by (auto simp: nth_append)
  have "commit_loop h (a # as) q = commit_loop ?h as (q @ [length h])"
    by (simp add: Let_def)
  also have "\<dots> = (?h @ map (?f ?h) as, (q @ [length h]) @ [length ?h..<length ?h + length as])"
    by (rule Cons.IH [OF v])
  also have "\<dots> = (h @ map (?f h) (a # as), q @ [length h..<length h + length (a # as)])"
  proof -
    have "length h < length h + length (a # as)" by simp
    from upt_conv_Cons [OF this]
    have e: "[length h..<length h + length (a # as)] =
        length h # [Suc (length h)..<length h + length (a # as)]" .
    show ?thesis unfolding e by (simp add: same)
  qed
  finally show ?case .
qed

lemma commit_inv:
  assumes "dept_inv d"
  shows "dept_inv (Department_commit_required_time d)"
    and "queue_view (Department_commit_required_time d) = cache_view d"
    and "cache_view (Department_commit_required_time d) = cache_view d"
proof -
  define f where "f = (\<lambda>a. if elems (heap d ! a) \<noteq> [] then heap d ! a else new_deque 1)"
  define Q where "Q = (\<lambda>q::Deque. 0 < maxlen q \<and> maxlen q \<le> 6 \<and> length (elems q) \<le> maxlen q)"
  from assms have v: "\<forall>a\<in>set (cache d). a < length (heap d)"
    by (simp add: dept_inv_def list_all_iff)
  have c: "Department_commit_required_time d =
      d\<lparr>queue := [length (heap d)..<length (heap d) + length (cache d)],
        heap := heap d @ map f (cache d)\<rparr>"
    by (simp add: Department_commit_required_time_def commit_loop_eq [OF v] f_def)
  have old: "\<forall>q\<in>set (heap d). Q q"
    using assms by (simp add: dept_inv_def list_all_iff Q_def)
  have "Q (new_deque 1)" by (simp add: Q_def new_deque_def)
  with old v have P: "\<forall>a\<in>set (cache d). Q (f a)" by (simp add: f_def)
  have "list_all Q (heap d @ map f (cache d))"
    using old P by (auto simp: list_all_iff)
  then have h: "list_all (\<lambda>q. 0 < maxlen q \<and> maxlen q \<le> 6 \<and> length (elems q) \<le> maxlen q)
      (heap d @ map f (cache d))"
    by (simp add: Q_def)
  have "list_all (\<lambda>a. a < length (heap d @ map f (cache d)))
      [length (heap d)..<length (heap d) + length (cache d)]"
    by (simp add: list_all_iff)
  moreover have "list_all (\<lambda>a. a < length (heap d @ map f (cache d))) (cache d)"
    using v by (auto simp: list_all_iff)
  ultimately show "dept_inv (Department_commit_required_time d)"
    using assms h unfolding c dept_inv_def by simp
  show "cache_view (Department_commit_required_time d) = cache_view d"
    using v unfolding c cache_view_def by (simp add: nth_append)
  have "map (\<lambda>a. elems ((heap d @ map f (cache d)) ! a))
          [length (heap d)..<length (heap d) + length (cache d)] =
        map (\<lambda>a. elems (heap d ! a)) (cache d)"
    by (rule nth_equalityI) (auto simp: nth_append new_deque_def f_def)
  then show "queue_view (Department_commit_required_time d) = cache_view d"
    unfolding c cache_view_def queue_view_def by simp
qed

lemma reverse_inv:
  assumes "dept_inv d"
  shows "dept_inv (Department_reverse_required_time d)"
    and "cache_view (Department_reverse_required_time d) =
         queue_view (Department_reverse_required_time d)"
  using assms
  by (simp_all add: dept_inv_def Department_reverse_required_time_def cache_view_def queue_view_def)

lemma dept_step_inv:
  "dept_inv d \<Longrightarrow> dept_step d x = Inr d' \<Longrightarrow> dept_inv d'"
  by (cases x)
    (auto simp: Department_required_time_def commit_inv(1) reverse_inv(1)
      split: sum.splits dest: dept_loop_inv)

lemma dept_run_inv:
  "dept_inv d \<Longrightarrow> dept_run d xs = Inr d' \<Longrightarrow> dept_inv d'"
proof (induction xs arbitrary: d)
  case Nil
  then show ?case by simp
next
  case (Cons x xs)
  then show ?case
    by (auto split: sum.splits dest: dept_step_inv)
qed

lemma dept_run_snoc:
  "dept_run d (xs @ [x]) =
     (case dept_run d xs of Inl e \<Rightarrow> Inl e | Inr d' \<Rightarrow> dept_step d' x)"
  by (induction xs arbitrary: d) (auto split: sum.splits)

lemma append_time_capacity:
  "Department_append_time d t = Inr (d', r) \<Longrightarrow> capacity d' = capacity d"
  by (auto simp: Department_append_time_def Let_def split: option.splits)

lemma dept_loop_capacity:
  "dept_loop d t its req = Inr (d', v) \<Longrightarrow> capacity d' = capacity d"
  by (induction its arbitrary: d req) (auto split: sum.splits dest: append_time_capacity)

lemma dept_step_capacity:
  "dept_step d x = Inr d' \<Longrightarrow> capacity d' = capacity d"
  by (cases x)
    (auto simp: Department_required_time_def Department_commit_required_time_def
      Department_reverse_required_time_def split: sum.splits prod.splits dest: dept_loop_capacity)

lemma dept_run_capacity:
  "dept_run d xs = Inr d' \<Longrightarrow> capacity d' = capacity d"
  by (induction xs arbitrary: d) (auto split: sum.splits dest: dept_step_capacity)

lemma init_views:
  "queue_view (Department_init nm cap tt) = replicate (nat cap) [] \<and>
   cache_view (Department_init nm cap tt) = replicate (nat cap) []"
proof -
  have "map (\<lambda>a. elems ((replicate (nat cap) (new_deque 1) @ replicate (nat cap) (new_deque 6)) ! a))
          [0..<nat cap] = replicate (nat cap) []"
    by (rule nth_equalityI) (auto simp: nth_append new_deque_def)
  moreover have "map (\<lambda>a. elems ((replicate (nat cap) (new_deque 1) @ replicate (nat cap) (new_deque 6)) ! a))
          [nat cap..<nat cap + nat cap] = replicate (nat cap) []"
    by (rule nth_equalityI) (auto simp: nth_append new_deque_def)
  ultimately show ?thesis
    by (simp add: queue_view_def cache_view_def Department_init_def Let_def)
qed

lemma dept_inv_views:
  assumes "dept_inv d"
  shows "list_all (\<lambda>s. length s \<le> 6) (queue_view d)"
    and "list_all (\<lambda>s. length s \<le> 6) (cache_view d)"
proof -
  have b: "length (elems (heap d ! a)) \<le> 6" if "a < length (heap d)" for a
  proof -
    from that have "heap d ! a \<in> set (heap d)" by simp
    with assms have "length (elems (heap d ! a)) \<le> maxlen (heap d ! a) \<and> maxlen (heap d ! a) \<le> 6"
      by (simp add: dept_inv_def list_all_iff)
    then show ?thesis by simp
  qed
  from assms show "list_all (\<lambda>s. length s \<le> 6) (queue_view d)"
    by (auto simp: queue_view_def dept_inv_def list_all_iff intro: b)
  from assms show "list_all (\<lambda>s. length s \<le> 6) (cache_view d)"
    by (auto simp: cache_view_def dept_inv_def list_all_iff intro: b)
qed

text \<open>
  C7, as the code has it. After any sequence of evaluations, commits and aborts on a newly
  constructed department, both the queue and the cache have exactly \<open>capacity\<close> slots
  (none for a non-positive capacity) and every slot of either holds at most 6 finish
  times; and after construction, after a commit and after an abort, that is whenever an
  evaluation starts, the cache has the same contents as the queue. A committed slot is a
  copy of the whole history of its cache slot, so it can hold more than one finish time.
\<close>

theorem stage_invariant:
  assumes run: "dept_run (Department_init nm cap tt) ops = Inr d"
  shows "length (queue d) = nat cap \<and> length (cache d) = nat cap \<and>
         list_all (\<lambda>s. length s \<le> 6) (queue_view d) \<and>
         list_all (\<lambda>s. length s \<le> 6) (cache_view d) \<and>
         (ops = [] \<or> last ops = Commit \<or> last ops = Abort \<longrightarrow> cache_view d = queue_view d)"
proof -
  have inv: "dept_inv d"
    by (rule dept_run_inv [OF dept_inv_init run])
  have "capacity d = cap"
    using dept_run_capacity [OF run] by (simp add: Department_init_def Let_def)
  with inv have len: "length (queue d) = nat cap \<and> length (cache d) = nat cap"
    by (simp add: dept_inv_def)
  have synced: "cache_view d = queue_view d"
    if "ops = [] \<or> last ops = Commit \<or> last ops = Abort"
  proof (cases ops rule: rev_cases)
    case Nil
    with run have "d = Department_init nm cap tt" by simp
    then show ?thesis by (simp add: init_views)
  next
    case (snoc xs x)
    with that have x: "x = Commit \<or> x = Abort" by simp
    from run snoc obtain d1 where d1: "dept_run (Department_init nm cap tt) xs = Inr d1"
      and st: "dept_step d1 x = Inr d"
      by (auto simp: dept_run_snoc split: sum.splits)
    have "dept_inv d1"
      by (rule dept_run_inv [OF dept_inv_init d1])
    with x st show ?thesis
      using commit_inv(2,3) [of d1] reverse_inv(2) [of d1] by auto
  qed
  from len dept_inv_views [OF inv] synced show ?thesis by blast
qed

theorem stage_invariant_witness:
  "\<exists>d. dept_run (Department_init ''cooking'' 1 60) [Evaluate two_item_order, Commit] = Inr d \<and>
       length (queue d) = 1 \<and> length (cache d) = 1 \<and> cache_view d = queue_view d \<and>
       list_all (\<lambda>s. length s \<le> 6) (queue_view d)"
proof -
  have "map_sum id queue_view
      (dept_run (Department_init ''cooking'' 1 60) [Evaluate two_item_order, Commit]) =
      Inr [[120, 60]]"
    by code_simp
  then obtain d where d: "dept_run (Department_init ''cooking'' 1 60) [Evaluate two_item_order, Commit] = Inr d"
    by (cases "dept_run (Department_init ''cooking'' 1 60) [Evaluate two_item_order, Commit]") auto
  from stage_invariant [OF d] show ?thesis
    using d by simp
qed

text \<open>
  C7 as stated fails: one slot, an order of two items, then a commit, and the
  committed slot holds the two finish times 120 and 60.
\<close>

theorem committed_slot_history_counterexample:
  "\<exists>d. dept_run (Department_init ''cooking'' 1 60) [Evaluate two_item_order, Commit] = Inr d \<and>
       queue_view d = [[120, 60]] \<and> \<not> list_all (\<lambda>s. length s \<le> 1) (queue_view d)"
proof -
  have "map_sum id queue_view
      (dept_run (Department_init ''cooking'' 1 60) [Evaluate two_item_order, Commit]) =
      Inr [[120, 60]]"
    by code_simp
  then obtain d where "dept_run (Department_init ''cooking'' 1 60) [Evaluate two_item_order, Commit] = Inr d"
    and "queue_view d = [[120, 60]]"
    by (cases "dept_run (Department_init ''cooking'' 1 60) [Evaluate two_item_order, Commit]") auto
  then show ?thesis by auto
qed

section \<open>Failure modes\<close>








section \<open>Abort and the committed schedule\<close>

text \<open>
  C1 does not hold of the code. \<open>reverse_required_time\<close> copies the list, not the deques:
  after an abort the cache holds the very deques of the queue, and the next allocation
  writes into the committed schedule. Here the department of the tests evaluates the
  test order and aborts; then one item is allocated at time 0, and the first committed
  slot, empty before, holds 60.
\<close>

theorem abort_shares_deques:
  "\<exists>d d'. dept_run (Department_init ''cooking'' 4 60) [Evaluate test_order, Abort] = Inr d \<and>
     cache d = queue d \<and> queue_view d = [[], [], [], []] \<and>
     Department_append_time d 0 = Inr (d', 60) \<and>
     queue_view d' = [[60], [], [], []]"
proof -
  have "map_sum id
      (\<lambda>d. (cache d = queue d, queue_view d,
            map_sum id (\<lambda>(d', r). (r, queue_view d')) (Department_append_time d 0)))
      (dept_run (Department_init ''cooking'' 4 60) [Evaluate test_order, Abort]) =
    Inr (True, [[], [], [], []], Inr (60, [[60], [], [], []]))"
    by code_simp
  then obtain d where d: "dept_run (Department_init ''cooking'' 4 60) [Evaluate test_order, Abort] = Inr d"
    and q: "cache d = queue d" "queue_view d = [[], [], [], []]"
    and a: "map_sum id (\<lambda>(d', r). (r, queue_view d')) (Department_append_time d 0) =
      Inr (60, [[60], [], [], []])"
    by (cases "dept_run (Department_init ''cooking'' 4 60) [Evaluate test_order, Abort]") auto
  from a obtain d' where "Department_append_time d 0 = Inr (d', 60)"
    "queue_view d' = [[60], [], [], []]"
    by (cases "Department_append_time d 0") auto
  with d q show ?thesis by blast
qed

text \<open>
  C2 does not hold of the code, for the same reason. In the slow kitchen the first order is
  rejected for time and leaves the committed schedules empty; the second order is
  rejected for time too, yet every committed slot then holds 601; and the third order,
  which the fresh kitchen accepts with 900 seconds (last equation), is rejected after the
  two rejected orders.
\<close>

theorem rejection_changes_committed_schedule:
  "outcome (process_orders slow_restaurant 1260 (take 1 slow_orders)) =
     Inr ([[[]], [[]], [[]]],
          \<lparr>patties = 100, lettuce = 200, tomato = 200, veggie = 100, bacon = 100\<rparr>,
          [Some REJECTED]) \<and>
   outcome (process_orders slow_restaurant 1260 (take 2 slow_orders)) =
     Inr ([[[601]], [[601]], [[601]]],
          \<lparr>patties = 100, lettuce = 200, tomato = 200, veggie = 100, bacon = 100\<rparr>,
          [Some REJECTED, Some REJECTED]) \<and>
   outcome (process_orders slow_restaurant 1260 slow_orders) =
     Inr ([[[901]], [[901]], [[901]]],
          \<lparr>patties = 100, lettuce = 200, tomato = 200, veggie = 100, bacon = 100\<rparr>,
          [Some REJECTED, Some REJECTED, Some REJECTED]) \<and>
   outcome (process_orders slow_restaurant 1260 (drop 2 slow_orders)) =
     Inr ([[[302]], [[302]], [[302]]],
          \<lparr>patties = 99, lettuce = 199, tomato = 199, veggie = 100, bacon = 99\<rparr>,
          [Some ACCEPTED])"
  by code_simp

end
